theory Spec2Isabelle
  imports Main
begin

section \<open>JavaScript values\<close>

text \<open>
  The plugin (\<^verbatim>\<open>src/index.js\<close>) reads a configuration tree parsed from YAML and
  command-line options. Its values are untyped, so they are modelled by one datatype.
  An object is the list of its own enumerable properties in the order \<^verbatim>\<open>Object.keys\<close>
  reports them. \<open>Num\<close> carries integer-valued numbers only (ports); NaN, fractions and
  integers of 21 digits or more (which a template literal prints in exponent form) are
  outside the model. Values are trees: no object is shared between two places of the
  configuration.
\<close>

datatype jsval =
    Undefined
  | Null
  | Bool bool
  | Num int
  | Str string
  | Arr "jsval list"
  | Obj "(string \<times> jsval) list"

type_synonym jsobj = "(string \<times> jsval) list"

text \<open>
  What a \<^verbatim>\<open>throw\<close> or a promise rejection carries: a \<^verbatim>\<open>TypeError\<close> raised by the
  language itself (a property read on \<^verbatim>\<open>null\<close> or \<^verbatim>\<open>undefined\<close>), or a value
  handed over by one of the external collaborators.
\<close>

datatype thrown = TypeError | Value jsval

text \<open>Truthiness, as tested by \<^verbatim>\<open>if\<close>, \<^verbatim>\<open>!\<close>, \<^verbatim>\<open>&&\<close>, \<^verbatim>\<open>||\<close> and \<^verbatim>\<open>filter(n => n)\<close>.\<close>

fun truthy :: "jsval \<Rightarrow> bool" where
  "truthy Undefined = False"
| "truthy Null = False"
| "truthy (Bool b) = b"
| "truthy (Num n) = (n \<noteq> 0)"
| "truthy (Str s) = (s \<noteq> [])"
| "truthy (Arr xs) = True"
| "truthy (Obj kvs) = True"

text \<open>\<^verbatim>\<open>a || b\<close> on values already computed.\<close>

definition js_or :: "jsval \<Rightarrow> jsval \<Rightarrow> jsval" where
  "js_or a b = (if truthy a then a else b)"

subsection \<open>Decimal strings and array indices\<close>

definition digit_char :: "nat \<Rightarrow> char" where
  "digit_char d = ''0123456789'' ! (d mod 10)"

function decimal :: "int \<Rightarrow> string" where
  "decimal n =
     (if n < 10 then [digit_char (nat n)]
      else decimal (n div 10) @ [digit_char (nat (n mod 10))])"
  by pat_completeness auto
termination
  by (relation "measure nat") auto

declare decimal.simps [simp del]

definition digit_val :: "char \<Rightarrow> int" where
  "digit_val c = of_char c - 48"

definition int_of_digits :: "string \<Rightarrow> int" where
  "int_of_digits s = foldl (\<lambda>acc c. acc * 10 + digit_val c) 0 s"

text \<open>
  A property key is an array index when it is the canonical decimal form of a number
  below \<open>2^32 - 1\<close>. Such keys are enumerated first, in ascending numeric order; all
  other keys follow in insertion order.
\<close>

definition array_index :: "string \<Rightarrow> int option" where
  "array_index k =
     (let n = int_of_digits k
      in if decimal n = k \<and> n < 4294967295 then Some n else None)"

subsection \<open>Reading and writing properties\<close>

text \<open>
  \<open>get v k\<close> is \<^verbatim>\<open>v[k]\<close> for a value \<open>v\<close> that is neither \<^verbatim>\<open>null\<close> nor
  \<^verbatim>\<open>undefined\<close>. Only own properties are modelled: the program reads the fixed names
  \<^verbatim>\<open>s3\<close>, \<^verbatim>\<open>additionalStacks\<close>, \<^verbatim>\<open>Resources\<close>, \<^verbatim>\<open>Type\<close>, \<^verbatim>\<open>Properties\<close>,
  \<^verbatim>\<open>BucketName\<close> and the option names, none of which is inherited, and keys obtained
  from \<^verbatim>\<open>Object.keys\<close> of the same value.
\<close>

fun get :: "jsval \<Rightarrow> string \<Rightarrow> jsval" where
  "get (Obj kvs) k = (case map_of kvs k of Some v \<Rightarrow> v | None \<Rightarrow> Undefined)"
| "get (Arr xs) k =
     (case array_index k of
        Some i \<Rightarrow> if i < int (length xs) then xs ! nat i else Undefined
      | None \<Rightarrow> Undefined)"
| "get (Str s) k =
     (case array_index k of
        Some i \<Rightarrow> if i < int (length s) then Str [s ! nat i] else Undefined
      | None \<Rightarrow> Undefined)"
| "get v k = Undefined"

text \<open>\<open>get_prop v k\<close> is \<^verbatim>\<open>v.k\<close> for any \<open>v\<close>: reading a property of \<^verbatim>\<open>null\<close> or
  \<^verbatim>\<open>undefined\<close> throws.\<close>

fun get_prop :: "jsval \<Rightarrow> string \<Rightarrow> thrown + jsval" where
  "get_prop Undefined k = Inl TypeError"
| "get_prop Null k = Inl TypeError"
| "get_prop v k = Inr (get v k)"

text \<open>The own enumerable properties of a value, as \<^verbatim>\<open>Object.keys\<close> and
  \<^verbatim>\<open>Object.assign\<close> see them. Both are only applied to values that are not
  \<^verbatim>\<open>null\<close> or \<^verbatim>\<open>undefined\<close> here (\<^verbatim>\<open>Object.assign\<close> skips such a source).\<close>

fun indexed :: "int \<Rightarrow> jsval list \<Rightarrow> jsobj" where
  "indexed i [] = []"
| "indexed i (x # xs) = (decimal i, x) # indexed (i + 1) xs"

fun own_props :: "jsval \<Rightarrow> jsobj" where
  "own_props (Obj kvs) = kvs"
| "own_props (Arr xs) = indexed 0 xs"
| "own_props (Str s) = indexed 0 (map (\<lambda>c. Str [c]) s)"
| "own_props v = []"

definition object_keys :: "jsval \<Rightarrow> string list" where
  "object_keys v = map fst (own_props v)"

text \<open>
  \<^verbatim>\<open>o[k] = v\<close> on a plain object, as far as its own properties go: an existing key
  keeps its place, a new array-index key goes among the index keys in numeric order,
  any other new key goes last. The key \<^verbatim>\<open>__proto__\<close>, when it is not an own key, is
  taken by the inherited setter: no own property is added. The prototype the setter
  installs is not part of the model, so what is read through it afterwards is not
  either; the theorems about a written object exclude that key.
\<close>

fun insert_index :: "int \<Rightarrow> string \<times> jsval \<Rightarrow> jsobj \<Rightarrow> jsobj" where
  "insert_index n kv [] = [kv]"
| "insert_index n kv ((k', v') # rest) =
     (case array_index k' of
        Some m \<Rightarrow> if m < n then (k', v') # insert_index n kv rest else kv # (k', v') # rest
      | None \<Rightarrow> kv # (k', v') # rest)"

definition obj_set :: "jsobj \<Rightarrow> string \<Rightarrow> jsval \<Rightarrow> jsobj" where
  "obj_set kvs k v =
     (if k \<in> fst ` set kvs then map (\<lambda>(k', v'). if k' = k then (k', v) else (k', v')) kvs
      else if k = ''__proto__'' then kvs
      else case array_index k of
             Some n \<Rightarrow> insert_index n (k, v) kvs
           | None \<Rightarrow> kvs @ [(k, v)])"

text \<open>\<^verbatim>\<open>Object.assign(target, source)\<close> for one source: every own key of the source
  is read from it and written to the target, in key order.\<close>

definition object_assign :: "jsobj \<Rightarrow> jsval \<Rightarrow> jsobj" where
  "object_assign target source =
     foldl (\<lambda>t k. obj_set t k (get source k)) target (object_keys source)"

text \<open>\<^verbatim>\<open>xs.concat(v)\<close>: an array argument is spread, anything else is appended as one
  element.\<close>

fun js_concat :: "jsval list \<Rightarrow> jsval \<Rightarrow> jsval list" where
  "js_concat xs (Arr ys) = xs @ ys"
| "js_concat xs v = xs @ [v]"

text \<open>String conversion, as a template literal \<^verbatim>\<open>`${v}`\<close> performs it (for numbers,
  within the range of \<open>Num\<close> given above).\<close>

fun join_comma :: "string list \<Rightarrow> string" where
  "join_comma [] = []"
| "join_comma [s] = s"
| "join_comma (s # t # rest) = s @ '','' @ join_comma (t # rest)"

fun to_string :: "jsval \<Rightarrow> string" where
  "to_string Undefined = ''undefined''"
| "to_string Null = ''null''"
| "to_string (Bool b) = (if b then ''true'' else ''false'')"
| "to_string (Num n) = (if n < 0 then ''-'' @ decimal (- n) else decimal n)"
| "to_string (Str s) = s"
| "to_string (Arr xs) =
     join_comma (map (\<lambda>x. if x = Undefined \<or> x = Null then [] else to_string x) xs)"
| "to_string (Obj kvs) = ''[object Object]''"

section \<open>The plugin instance and its collaborators\<close>

text \<open>
  The part of \<^verbatim>\<open>serverless.service\<close> the plugin reads. \<open>custom\<close> is
  \<^verbatim>\<open>service.custom\<close> (\<open>Undefined\<close> when the section is absent). \<open>Resources\<close> is the
  mapping \<^verbatim>\<open>service.resources.Resources\<close> of the deployment template, \<open>None\<close> when
  \<^verbatim>\<open>service.resources\<close> or its \<^verbatim>\<open>Resources\<close> is absent; \<open>plugins\<close> is the declared
  plugin list, \<open>None\<close> when absent. The constructor stores \<^verbatim>\<open>serverless.service\<close> as
  \<^verbatim>\<open>this.service\<close>, so both names denote this one structure.
\<close>

record service =
  custom :: jsval
  Resources :: "jsobj option"
  plugins :: "jsval list option"

text \<open>The running server returned by \<^verbatim>\<open>S3rver.run\<close>; \<^verbatim>\<open>this.client\<close> holds it, or
  \<^verbatim>\<open>null\<close> (\<open>None\<close>).\<close>

type_synonym handle = nat

record plugin =
  service :: service
  options :: jsobj
  client :: "handle option"

definition constructor :: "service \<Rightarrow> jsobj \<Rightarrow> plugin" where
  "constructor srv opts = \<lparr>service = srv, options = opts, client = None\<rparr>"

text \<open>The argument of \<^verbatim>\<open>new S3rver({port, hostname, silent, directory, cors})\<close>.\<close>

record s3rver_options =
  port :: jsval
  hostname :: jsval
  silent :: bool
  directory :: string
  cors :: jsval

text \<open>
  The external collaborators, as the answers they give: whether
  \<^verbatim>\<open>fs.ensureDirSync\<close> throws, what \<^verbatim>\<open>fs.realpathSync\<close> returns or throws, what
  \<^verbatim>\<open>new S3rver(..).run(cb)\<close> returns or throws, the arguments
  \<open>(err, s3Host, s3Port)\<close> it later passes to the callback, and for the \<open>i\<close>-th
  \<^verbatim>\<open>createBucket\<close> request against an endpoint the moment it settles and the
  rejection, if any.
\<close>

record world =
  ensureDirSync :: "jsval \<Rightarrow> thrown option"
  realpathSync :: "jsval \<Rightarrow> thrown + string"
  s3rver_run :: "s3rver_options \<Rightarrow> thrown + handle"
  s3rver_callback :: "s3rver_options \<Rightarrow> jsval \<times> jsval \<times> jsval"
  createBucket :: "string \<Rightarrow> nat \<Rightarrow> jsval \<Rightarrow> nat \<times> thrown option"

text \<open>The calls the plugin makes on its collaborators, in the order it makes them.\<close>

datatype event =
    EnsureDirSync jsval
  | RealpathSync jsval
  | S3rverRun s3rver_options
  | ConsoleError string
  | ConsoleLog string
  | NewS3 string
  | CliLog string
  | CreateBucket string jsval
  | ServerClose handle

datatype outcome = Resolved | Rejected thrown

section \<open>Bucket resolution\<close>

definition bucket_type :: string where
  "bucket_type = ''AWS::S3::Bucket''"

definition getAdditionalStacks :: "plugin \<Rightarrow> thrown + jsval list" where
  "getAdditionalStacks this =
     (case get_prop (custom (service this)) ''additionalStacks'' of
        Inl e \<Rightarrow> Inl e
      | Inr a \<Rightarrow>
          (let serviceAdditionalStacks = js_or a (Obj [])
           in Inr (map (get serviceAdditionalStacks) (object_keys serviceAdditionalStacks))))"

definition hasAdditionalStacksPlugin :: "plugin \<Rightarrow> bool" where
  "hasAdditionalStacksPlugin this =
     (case plugins (service this) of
        None \<Rightarrow> False
      | Some ps \<Rightarrow> Str ''serverless-plugin-additional-stacks'' \<in> set ps)"

text \<open>The inner \<^verbatim>\<open>forEach\<close> of \<^verbatim>\<open>buckets\<close> over the keys of one stack's
  \<^verbatim>\<open>Resources\<close>. It writes into \<open>resources\<close>; a throw leaves the writes made so far.\<close>

fun merge_keys :: "jsval \<Rightarrow> string list \<Rightarrow> jsobj \<Rightarrow> jsobj \<times> thrown option" where
  "merge_keys r [] resources = (resources, None)"
| "merge_keys r (key # keys) resources =
     (case get_prop (get r key) ''Type'' of
        Inl e \<Rightarrow> (resources, Some e)
      | Inr ty \<Rightarrow>
          merge_keys r keys
            (if ty = Str bucket_type then obj_set resources key (get r key) else resources))"

text \<open>The outer \<^verbatim>\<open>forEach\<close> over the additional stacks.\<close>

fun merge_stacks :: "jsval list \<Rightarrow> jsobj \<Rightarrow> jsobj \<times> thrown option" where
  "merge_stacks [] resources = (resources, None)"
| "merge_stacks (stack # stacks) resources =
     (case get_prop stack ''Resources'' of
        Inl e \<Rightarrow> (resources, Some e)
      | Inr r \<Rightarrow>
          if truthy r then
            (case merge_keys r (object_keys r) resources of
               (resources', Some e) \<Rightarrow> (resources', Some e)
             | (resources', None) \<Rightarrow> merge_stacks stacks resources')
          else merge_stacks stacks resources)"

text \<open>The callback of \<^verbatim>\<open>Object.keys(resources).map\<close>.\<close>

definition bucket_name :: "jsobj \<Rightarrow> string \<Rightarrow> thrown + jsval" where
  "bucket_name resources key =
     (let entry = get (Obj resources) key
      in case get_prop entry ''Type'' of
           Inl e \<Rightarrow> Inl e
         | Inr ty \<Rightarrow>
             if ty = Str bucket_type \<and> truthy (get entry ''Properties'')
                \<and> truthy (get (get entry ''Properties'') ''BucketName'')
             then Inr (get (get entry ''Properties'') ''BucketName'')
             else Inr Null)"

text \<open>\<^verbatim>\<open>xs.map(f)\<close> for a callback that may throw: the first throw ends the loop.\<close>

fun map_throw :: "('a \<Rightarrow> thrown + 'b) \<Rightarrow> 'a list \<Rightarrow> thrown + 'b list" where
  "map_throw f [] = Inr []"
| "map_throw f (x # xs) =
     (case f x of
        Inl e \<Rightarrow> Inl e
      | Inr y \<Rightarrow> (case map_throw f xs of Inl e \<Rightarrow> Inl e | Inr ys \<Rightarrow> Inr (y # ys)))"

text \<open>The \<^verbatim>\<open>return\<close> expression of \<^verbatim>\<open>buckets\<close>: map, then \<^verbatim>\<open>filter(n => n)\<close>.\<close>

definition bucket_names :: "jsobj \<Rightarrow> thrown + jsval list" where
  "bucket_names resources =
     (case map_throw (bucket_name resources) (object_keys (Obj resources)) of
        Inl e \<Rightarrow> Inl e
      | Inr ns \<Rightarrow> Inr (filter truthy ns))"

text \<open>
  \<^verbatim>\<open>buckets()\<close>, first part (lines 144 to 157): the mapping \<^verbatim>\<open>resources\<close> that is
  walked afterwards. When the template has a \<^verbatim>\<open>Resources\<close> mapping, \<^verbatim>\<open>resources\<close> is
  that very object, so the writes of the merge are writes to the service structure and
  the updated instance is returned; otherwise \<^verbatim>\<open>resources\<close> is a fresh \<^verbatim>\<open>{}\<close>.
\<close>

definition collect_resources :: "plugin \<Rightarrow> plugin \<times> (thrown + jsobj)" where
  "collect_resources this =
     (let resources = (case Resources (service this) of Some r \<Rightarrow> r | None \<Rightarrow> [])
      in if hasAdditionalStacksPlugin this then
           (case getAdditionalStacks this of
              Inl e \<Rightarrow> (this, Inl e)
            | Inr additionalStacks \<Rightarrow>
                (case merge_stacks additionalStacks resources of
                   (resources', err) \<Rightarrow>
                     (let this' =
                            (case Resources (service this) of
                               Some r \<Rightarrow>
                                 this\<lparr>service := (service this)\<lparr>Resources := Some resources'\<rparr>\<rparr>
                             | None \<Rightarrow> this)
                      in case err of
                           Some e \<Rightarrow> (this', Inl e)
                         | None \<Rightarrow> (this', Inr resources'))))
         else (this, Inr resources))"

text \<open>\<^verbatim>\<open>buckets()\<close>: the instance afterwards, and the list returned or the exception.\<close>

definition buckets :: "plugin \<Rightarrow> plugin \<times> (thrown + jsval list)" where
  "buckets this =
     (case collect_resources this of
        (this', Inl e) \<Rightarrow> (this', Inl e)
      | (this', Inr resources) \<Rightarrow> (this', bucket_names resources))"

section \<open>Start and stop\<close>

text \<open>
  \<^verbatim>\<open>Promise.all\<close> over requests already issued, each given as the moment it settles
  and its rejection, if any: fulfilled when all are, otherwise rejected with the
  rejection that settles first (the earlier request on a tie).
\<close>

fun first_rejection :: "(nat \<times> thrown option) list \<Rightarrow> (nat \<times> thrown) option" where
  "first_rejection [] = None"
| "first_rejection ((t, None) # rs) = first_rejection rs"
| "first_rejection ((t, Some e) # rs) =
     (case first_rejection rs of
        None \<Rightarrow> Some (t, e)
      | Some (t', e') \<Rightarrow> if t' < t then Some (t', e') else Some (t, e))"

definition promise_all :: "(nat \<times> thrown option) list \<Rightarrow> outcome" where
  "promise_all rs = (case first_rejection rs of None \<Rightarrow> Resolved | Some (t, e) \<Rightarrow> Rejected e)"

text \<open>The endpoint of the storage client built by \<^verbatim>\<open>createBuckets\<close>.\<close>

definition endpoint :: "jsval \<Rightarrow> string" where
  "endpoint p = ''http://localhost:'' @ to_string p"

text \<open>The requests of \<^verbatim>\<open>buckets.map(..)\<close>, numbered in the order they are issued.\<close>

fun create_requests :: "world \<Rightarrow> string \<Rightarrow> nat \<Rightarrow> jsval list \<Rightarrow> (nat \<times> thrown option) list" where
  "create_requests w ep i [] = []"
| "create_requests w ep i (b # bs) = createBucket w ep i b # create_requests w ep (Suc i) bs"

definition create_events :: "string \<Rightarrow> jsval list \<Rightarrow> event list" where
  "create_events ep bs =
     concat (map (\<lambda>b. [CliLog (''creating bucket: '' @ to_string b), CreateBucket ep b]) bs)"

text \<open>\<^verbatim>\<open>createBuckets(port, buckets)\<close>: the calls made and how the returned promise
  settles.\<close>

definition createBuckets :: "world \<Rightarrow> jsval \<Rightarrow> jsval list \<Rightarrow> event list \<times> outcome" where
  "createBuckets w p bs =
     (if bs = [] then ([], Resolved)
      else (NewS3 (endpoint p) # create_events (endpoint p) bs,
            promise_all (create_requests w (endpoint p) 0 bs)))"

text \<open>\<^verbatim>\<open>config\<close> and \<^verbatim>\<open>options\<close> of \<^verbatim>\<open>startHandler\<close> (lines 60 and 61).\<close>

definition config :: "plugin \<Rightarrow> jsval" where
  "config this =
     (let c = custom (service this)
      in js_or (if truthy c then get c ''s3'' else c) (Obj []))"

definition merged_options :: "plugin \<Rightarrow> jsobj" where
  "merged_options this = object_assign (object_assign [] (Obj (options this))) (config this)"

text \<open>The constant \<^verbatim>\<open>buckets\<close> of \<^verbatim>\<open>startHandler\<close> (line 64): the names from the
  resources, then \<^verbatim>\<open>options.buckets\<close>.\<close>

definition start_buckets :: "plugin \<Rightarrow> plugin \<times> (thrown + jsval list)" where
  "start_buckets this =
     (case buckets this of
        (this1, Inl e) \<Rightarrow> (this1, Inl e)
      | (this1, Inr names) \<Rightarrow>
          (this1, Inr (js_concat names
                         (js_or (get (Obj (merged_options this)) ''buckets'') (Arr [])))))"

text \<open>
  What is left to happen when the promise executor of \<^verbatim>\<open>startHandler\<close> returns: the
  promise is already settled (a throw inside the executor rejects it), or bucket
  creation runs against the configured port, or the server's callback is awaited.
\<close>

datatype continuation =
    Settled outcome
  | Create jsval "jsval list"
  | Awaiting s3rver_options "jsval list"

definition executor :: "world \<Rightarrow> plugin \<Rightarrow> plugin \<times> event list \<times> continuation" where
  "executor w this =
     (let opts = Obj (merged_options this)
      in case start_buckets this of
           (this1, Inl e) \<Rightarrow> (this1, [], Settled (Rejected e))
         | (this1, Inr bs) \<Rightarrow>
             (let p = js_or (get opts ''port'') (Num 4569);
                  h = js_or (get opts ''host'') (Str ''localhost'');
                  c = js_or (get opts ''cors'') (Bool False)
              in if truthy (get opts ''noStart'') then (this1, [], Create p bs)
                 else
                   (let dirPath = js_or (get opts ''directory'') (Str ''./buckets'')
                    in case ensureDirSync w dirPath of
                         Some e \<Rightarrow> (this1, [EnsureDirSync dirPath], Settled (Rejected e))
                       | None \<Rightarrow>
                           (case realpathSync w dirPath of
                              Inl e \<Rightarrow>
                                (this1, [EnsureDirSync dirPath, RealpathSync dirPath],
                                 Settled (Rejected e))
                            | Inr d \<Rightarrow>
                                (let cfg = \<lparr>port = p, hostname = h, silent = False,
                                            directory = d, cors = c\<rparr>;
                                     evs = [EnsureDirSync dirPath, RealpathSync dirPath,
                                            S3rverRun cfg]
                                 in case s3rver_run w cfg of
                                      Inl e \<Rightarrow> (this1, evs, Settled (Rejected e))
                                    | Inr srv \<Rightarrow>
                                        (this1\<lparr>client := Some srv\<rparr>, evs, Awaiting cfg bs))))))"

text \<open>The callback given to \<^verbatim>\<open>run\<close>, applied to \<open>(err, s3Host, s3Port)\<close>.\<close>

definition run_callback :: "world \<Rightarrow> jsval list \<Rightarrow> jsval \<times> jsval \<times> jsval \<Rightarrow> event list \<times> outcome" where
  "run_callback w bs args =
     (case args of
        (err, s3Host, s3Port) \<Rightarrow>
          if truthy err then
            ([ConsoleError ''Error occurred while starting S3 local.''], Rejected (Value err))
          else
            (case createBuckets w s3Port bs of
               (evs, out) \<Rightarrow>
                 (ConsoleLog (''S3 local started ( port:'' @ to_string s3Port @ '' )'') # evs, out)))"

text \<open>\<^verbatim>\<open>startHandler()\<close> run to the settling of its promise: the instance afterwards, the
  calls made, and the outcome.\<close>

definition startHandler :: "world \<Rightarrow> plugin \<Rightarrow> plugin \<times> event list \<times> outcome" where
  "startHandler w this =
     (case executor w this of
        (this', evs, Settled out) \<Rightarrow> (this', evs, out)
      | (this', evs, Create p bs) \<Rightarrow>
          (case createBuckets w p bs of (evs', out) \<Rightarrow> (this', evs @ evs', out))
      | (this', evs, Awaiting cfg bs) \<Rightarrow>
          (case run_callback w bs (s3rver_callback w cfg) of
             (evs', out) \<Rightarrow> (this', evs @ evs', out)))"

text \<open>\<^verbatim>\<open>endHandler()\<close>: the calls made and the exception thrown, if any. It reads
  \<^verbatim>\<open>this.options\<close>, and leaves the instance as it is.\<close>

definition endHandler :: "plugin \<Rightarrow> event list \<times> thrown option" where
  "endHandler this =
     (if \<not> truthy (get (Obj (options this)) ''noStart'') then
        (case client this of
           None \<Rightarrow> ([], Some TypeError)
         | Some srv \<Rightarrow> ([ServerClose srv, ConsoleLog ''S3 local closed''], None))
      else ([], None))"

section \<open>The specification's wording and sample inputs\<close>

text \<open>The merge in the words of the specification: the service configuration \<open>cfg\<close>
  overlaid by the run options \<open>opts\<close>, so that \<open>opts\<close> wins on a common key.\<close>

definition options_win :: "jsobj \<Rightarrow> jsval \<Rightarrow> jsobj" where
  "options_win opts cfg = object_assign (object_assign [] cfg) (Obj opts)"

text \<open>A service whose \<^verbatim>\<open>custom.s3\<close> section is \<open>c\<close>, with the given template resources
  and no plugins declared.\<close>

definition s3_service :: "jsval \<Rightarrow> jsobj option \<Rightarrow> service" where
  "s3_service c r = \<lparr>custom = Obj [(''s3'', c)], Resources = r, plugins = None\<rparr>"

subsection \<open>Bucket resolution in the specification's words\<close>

text \<open>
  The test of line 160 on an entry that is neither \<^verbatim>\<open>null\<close> nor \<^verbatim>\<open>undefined\<close>, and the
  value \<^verbatim>\<open>buckets\<close> returns for an entry passing it.
\<close>

definition named_bucket :: "jsval \<Rightarrow> bool" where
  "named_bucket entry =
     (get entry ''Type'' = Str bucket_type \<and> truthy (get entry ''Properties'')
      \<and> truthy (get (get entry ''Properties'') ''BucketName''))"

definition name_of :: "jsval \<Rightarrow> jsval" where
  "name_of entry = get (get entry ''Properties'') ''BucketName''"

text \<open>The explicitly configured buckets \<^verbatim>\<open>options.buckets\<close>: the elements of an array,
  any other truthy value as a single name, nothing otherwise.\<close>

definition explicit_buckets :: "jsval \<Rightarrow> jsval list" where
  "explicit_buckets v = (case v of Arr ys \<Rightarrow> ys | _ \<Rightarrow> if truthy v then [v] else [])"

text \<open>
  The specification's reading of a named bucket: the entry has the bucket type and
  carries a non-empty literal (string) \<^verbatim>\<open>BucketName\<close>; and the resolved list it
  describes for a mapping and an explicit list.
\<close>

definition literal_name :: "jsval \<Rightarrow> string option" where
  "literal_name entry =
     (if get entry ''Type'' = Str bucket_type then
        (case get (get entry ''Properties'') ''BucketName'' of
           Str s \<Rightarrow> if s \<noteq> [] then Some s else None
         | _ \<Rightarrow> None)
      else None)"

definition literal_names :: "jsobj \<Rightarrow> jsval list \<Rightarrow> jsval list" where
  "literal_names resources explicit =
     map Str (List.map_filter literal_name (map snd resources)) @ explicit"

text \<open>A template entry of bucket type whose \<^verbatim>\<open>BucketName\<close> is \<open>n\<close>.\<close>

definition bucket_entry :: "jsval \<Rightarrow> jsval" where
  "bucket_entry n = Obj [(''Type'', Str ''AWS::S3::Bucket''), (''Properties'', Obj [(''BucketName'', n)])]"

text \<open>
  The entry a secondary stack declares under key \<open>k\<close> with the bucket type, and the
  entry the last such stack declares (stacks are merged in order, so a later stack
  overwrites an earlier one).
\<close>

definition declared :: "jsval \<Rightarrow> string \<Rightarrow> jsval option" where
  "declared stack k =
     (let r = get stack ''Resources''
      in if truthy r \<and> k \<in> set (object_keys r) \<and> get (get r k) ''Type'' = Str bucket_type
         then Some (get r k) else None)"

fun last_declared :: "jsval list \<Rightarrow> string \<Rightarrow> jsval option" where
  "last_declared [] k = None"
| "last_declared (stack # stacks) k =
     (case last_declared stacks k of Some e \<Rightarrow> Some e | None \<Rightarrow> declared stack k)"

text \<open>A service with the additional-stacks plugin declared, whose
  \<^verbatim>\<open>custom.additionalStacks\<close> is \<open>a\<close>.\<close>

definition stacks_service :: "jsval \<Rightarrow> jsobj option \<Rightarrow> service" where
  "stacks_service a r =
     \<lparr>custom = Obj [(''additionalStacks'', a)], Resources = r,
      plugins = Some [Str ''serverless-plugin-additional-stacks'']\<rparr>"

text \<open>One secondary stack that declares the bucket \<^verbatim>\<open>Data\<close> (named \<^verbatim>\<open>secondary\<close>) and a
  queue, over a template whose \<^verbatim>\<open>Data\<close> is a bucket named \<^verbatim>\<open>primary\<close>.\<close>

definition second_stack :: jsval where
  "second_stack =
     Obj [(''Resources'',
           Obj [(''Data'', bucket_entry (Str ''secondary'')),
                (''Queue'', Obj [(''Type'', Str ''AWS::SQS::Queue'')])])]"

definition stacked :: plugin where
  "stacked =
     constructor
       (stacks_service (Obj [(''second'', second_stack)])
          (Some [(''Data'', bucket_entry (Str ''primary''))])) []"

text \<open>
  \<open>two_stacks\<close>: two secondary stacks that both declare the bucket \<^verbatim>\<open>Data\<close>, named
  \<^verbatim>\<open>first\<close> and \<^verbatim>\<open>second\<close>, over the same template. \<open>null_sibling\<close>: one secondary
  stack that declares the bucket \<^verbatim>\<open>Data\<close> and an empty resource \<^verbatim>\<open>Bad\<close>.
\<close>

definition first_stack :: jsval where
  "first_stack = Obj [(''Resources'', Obj [(''Data'', bucket_entry (Str ''first''))])]"

definition two_stacks :: plugin where
  "two_stacks =
     constructor
       (stacks_service
          (Obj [(''first'', first_stack),
                (''second'',
                 Obj [(''Resources'', Obj [(''Data'', bucket_entry (Str ''second''))])])])
          (Some [(''Data'', bucket_entry (Str ''primary''))])) []"

definition null_sibling :: plugin where
  "null_sibling =
     constructor
       (stacks_service
          (Obj [(''second'',
                 Obj [(''Resources'',
                       Obj [(''Data'', bucket_entry (Str ''secondary'')), (''Bad'', Null)])])])
          (Some [(''Data'', bucket_entry (Str ''primary''))])) []"

subsection \<open>Reading the calls made\<close>

text \<open>The calls that belong to bucket creation, and the \<^verbatim>\<open>createBucket\<close> requests among
  a list of calls, each with its endpoint.\<close>

fun is_creation :: "event \<Rightarrow> bool" where
  "is_creation (NewS3 ep) = True"
| "is_creation (CreateBucket ep b) = True"
| "is_creation e = False"

fun create_calls :: "event list \<Rightarrow> (string \<times> jsval) list" where
  "create_calls [] = []"
| "create_calls (CreateBucket ep b # evs) = (ep, b) # create_calls evs"
| "create_calls (e # evs) = create_calls evs"

text \<open>The endpoint in the words of the specification: \<^verbatim>\<open>http://{hostname}:{port}\<close>.\<close>

definition spec_endpoint :: "jsval \<Rightarrow> jsval \<Rightarrow> string" where
  "spec_endpoint h p = ''http://'' @ to_string h @ '':'' @ to_string p"

subsection \<open>Sample collaborators and instances\<close>

text \<open>
  \<open>calm\<close>: nothing fails, the server binds the requested port. \<open>port_taken\<close>: the
  server reports a startup error. \<open>ephemeral\<close>: the server binds port 51234 whatever
  was requested. \<open>denied\<close>: the request for the bucket \<^verbatim>\<open>taken\<close> is rejected.
  \<open>run_throws\<close>: \<^verbatim>\<open>run\<close> throws instead of returning a server.
\<close>

definition calm :: world where
  "calm =
     \<lparr>ensureDirSync = (\<lambda>d. None),
      realpathSync = (\<lambda>d. Inr ''/srv/buckets''),
      s3rver_run = (\<lambda>cfg. Inr 7),
      s3rver_callback = (\<lambda>cfg. (Null, hostname cfg, port cfg)),
      createBucket = (\<lambda>ep i b. (i, None))\<rparr>"

definition port_taken :: world where
  "port_taken = calm\<lparr>s3rver_callback := (\<lambda>cfg. (Str ''EADDRINUSE'', Undefined, Undefined))\<rparr>"

definition ephemeral :: world where
  "ephemeral = calm\<lparr>s3rver_callback := (\<lambda>cfg. (Null, hostname cfg, Num 51234))\<rparr>"


definition run_throws :: world where
  "run_throws = calm\<lparr>s3rver_run := (\<lambda>cfg. Inl (Value (Str ''EACCES'')))\<rparr>"

text \<open>
  \<open>logs_extra\<close>: the template declares the bucket \<^verbatim>\<open>logs\<close>, \<^verbatim>\<open>custom.s3\<close> lists
  \<^verbatim>\<open>extra\<close>, no run options. \<open>external\<close>: the same with \<^verbatim>\<open>noStart\<close> set in the run
  options. \<open>external_5000\<close>: as \<open>external\<close>, with port 5000 configured.
  \<open>taken_first\<close>: \<^verbatim>\<open>noStart\<close> set, the buckets \<^verbatim>\<open>taken\<close> and \<^verbatim>\<open>late\<close> listed.
  \<open>config_noStart\<close>: \<^verbatim>\<open>noStart\<close> set in \<^verbatim>\<open>custom.s3\<close> only. \<open>remote_host\<close>: a host
  name and \<^verbatim>\<open>noStart\<close> given in the run options.
\<close>

definition logs_extra :: plugin where
  "logs_extra =
     constructor
       (s3_service (Obj [(''buckets'', Arr [Str ''extra''])])
          (Some [(''R1'', bucket_entry (Str ''logs''))])) []"

definition external :: plugin where
  "external =
     constructor
       (s3_service (Obj [(''buckets'', Arr [Str ''extra''])])
          (Some [(''R1'', bucket_entry (Str ''logs''))])) [(''noStart'', Bool True)]"



definition config_noStart :: plugin where
  "config_noStart =
     constructor
       (s3_service (Obj [(''noStart'', Bool True), (''buckets'', Arr [Str ''a''])]) None) []"

definition remote_host :: plugin where
  "remote_host =
     constructor (s3_service (Obj []) None)
       [(''host'', Str ''storage.test''), (''noStart'', Bool True),
        (''buckets'', Arr [Str ''a''])]"

section \<open>Properties of the value layer\<close>

lemma map_of_insert_index:
  "k \<notin> fst ` set kvs \<Longrightarrow>
   map_of (insert_index n (k, v) kvs) k' = (if k' = k then Some v else map_of kvs k')"
proof (induction kvs)
  case Nil
  then show ?case by simp
next
  case (Cons a kvs)
  obtain k0 v0 where a: "a = (k0, v0)" by (cases a)
  from Cons.prems a have ne: "k0 \<noteq> k" and notin: "k \<notin> fst ` set kvs" by auto
  show ?case
  proof (cases "array_index k0")
    case None
    with a ne show ?thesis by simp
  next
    case (Some m)
    with a ne Cons.IH [OF notin] show ?thesis by (cases "k' = k") simp_all
  qed
qed

lemma map_of_replace:
  "map_of (map (\<lambda>(k', v'). if k' = k then (k', v) else (k', v')) kvs) k'' =
     (if k'' = k \<and> k \<in> fst ` set kvs then Some v else map_of kvs k'')"
proof (induction kvs)
  case Nil
  then show ?case by simp
next
  case (Cons a kvs)
  obtain k0 v0 where a: "a = (k0, v0)" by (cases a)
  show ?case
  proof (cases "k0 = k")
    case True
    with a Cons.IH show ?thesis by simp
  next
    case False
    with a Cons.IH show ?thesis by (cases "k'' = k") auto
  qed
qed

lemma map_of_obj_set:
  "k \<noteq> ''__proto__'' \<Longrightarrow>
   map_of (obj_set kvs k v) k' = (if k' = k then Some v else map_of kvs k')"
proof (cases "k \<in> fst ` set kvs")
  case True
  then show ?thesis by (simp add: obj_set_def map_of_replace)
next
  case False
  assume np: "k \<noteq> ''__proto__''"
  from False have none: "map_of kvs k = None" by (simp add: map_of_eq_None_iff)
  have app: "map_of (kvs @ [(k, v)]) k' = (if k' = k then Some v else map_of kvs k')"
    using none by (simp add: map_add_def split: option.splits)
  show ?thesis
  proof (cases "array_index k")
    case None
    with False np app show ?thesis by (simp add: obj_set_def)
  next
    case (Some n)
    with False np map_of_insert_index [OF False] show ?thesis by (simp add: obj_set_def)
  qed
qed

lemma map_of_assign_keys:
  "''__proto__'' \<notin> set ks \<Longrightarrow>
   map_of (foldl (\<lambda>t k. obj_set t k (get src k)) t ks) k =
     (if k \<in> set ks then Some (get src k) else map_of t k)"
proof (induction ks arbitrary: t)
  case Nil
  then show ?case by simp
next
  case (Cons a ks)
  from Cons.prems have a: "a \<noteq> ''__proto__''" and ks: "''__proto__'' \<notin> set ks" by auto
  show ?case
    unfolding foldl_Cons Cons.IH [OF ks]
    by (simp add: map_of_obj_set [OF a])
qed

lemma map_of_object_assign:
  "''__proto__'' \<notin> set (object_keys src) \<Longrightarrow>
   map_of (object_assign t src) k =
     (if k \<in> set (object_keys src) then Some (get src k) else map_of t k)"
  unfolding object_assign_def by (rule map_of_assign_keys)

lemma map_of_assign_empty:
  assumes "''__proto__'' \<notin> fst ` set kvs"
  shows "map_of (object_assign [] (Obj kvs)) k = map_of kvs k"
proof (cases "k \<in> fst ` set kvs")
  case True
  then obtain v where v: "map_of kvs k = Some v"
    by (cases "map_of kvs k") (simp_all add: map_of_eq_None_iff)
  from assms True v show ?thesis
    by (simp add: map_of_object_assign object_keys_def)
next
  case False
  then have "map_of kvs k = None" by (simp add: map_of_eq_None_iff)
  with assms False show ?thesis
    by (simp add: map_of_object_assign object_keys_def)
qed

section \<open>Configuration merging\<close>

text \<open>
  C1, as the specification states it: the merged configuration is the service
  configuration overlaid by the run options. It fails: with \<^verbatim>\<open>port: 1\<close> in the run
  options and \<^verbatim>\<open>port: 2\<close> in \<^verbatim>\<open>custom.s3\<close>, \<^verbatim>\<open>startHandler\<close> merges to port 2.
\<close>

theorem merged_options_not_options_win:
  "merged_options (constructor (s3_service (Obj [(''port'', Num 2)]) None) [(''port'', Num 1)])
     \<noteq> options_win [(''port'', Num 1)] (Obj [(''port'', Num 2)])
   \<and> get (Obj (merged_options
          (constructor (s3_service (Obj [(''port'', Num 2)]) None) [(''port'', Num 1)])))
        ''port'' = Num 2"
  by code_simp

text \<open>
  C1, amended: \<^verbatim>\<open>Object.assign({}, this.options, config)\<close> lets the service
  configuration win. When neither the run options nor \<^verbatim>\<open>custom.s3\<close> has a key
  \<^verbatim>\<open>__proto__\<close>, the own properties of the merged object are: every key of
  \<^verbatim>\<open>custom.s3\<close> with the value given there, and every other key of the run options
  with the value given there.
\<close>

theorem merged_options_config_wins:
  assumes "''__proto__'' \<notin> fst ` set (options this)"
    and "''__proto__'' \<notin> set (object_keys (config this))"
  shows "map_of (merged_options this) k =
           (if k \<in> set (object_keys (config this)) then Some (get (config this) k)
            else map_of (options this) k)"
  unfolding merged_options_def
  by (simp only: map_of_object_assign [OF assms(2)] map_of_assign_empty [OF assms(1)])

theorem merged_options_config_wins_witness:
  "map_of (merged_options
        (constructor (s3_service (Obj [(''port'', Num 2)]) None)
           [(''port'', Num 1), (''cors'', Bool True)])) ''port'' = Some (Num 2)
   \<and> map_of (merged_options
        (constructor (s3_service (Obj [(''port'', Num 2)]) None)
           [(''port'', Num 1), (''cors'', Bool True)])) ''cors'' = Some (Bool True)
   \<and> map_of (merged_options
        (constructor (s3_service (Obj [(''port'', Num 2)]) None)
           [(''port'', Num 1), (''cors'', Bool True)])) ''host'' = None"
proof -
  let ?t = "constructor (s3_service (Obj [(''port'', Num 2)]) None)
              [(''port'', Num 1), (''cors'', Bool True)]"
  have o: "''__proto__'' \<notin> fst ` set (options ?t)" by code_simp
  have c: "''__proto__'' \<notin> set (object_keys (config ?t))" by code_simp
  have k: "object_keys (config ?t) = [''port'']" by code_simp
  have g: "get (config ?t) ''port'' = Num 2" by code_simp
  have m: "options ?t = [(''port'', Num 1), (''cors'', Bool True)]" by code_simp
  from merged_options_config_wins [OF o c, of "''port''"]
       merged_options_config_wins [OF o c, of "''cors''"]
       merged_options_config_wins [OF o c, of "''host''"]
  show ?thesis unfolding k g m by simp
qed

section \<open>Bucket resolution\<close>

lemma js_concat_explicit: "js_concat names (js_or v (Arr [])) = names @ explicit_buckets v"
  by (cases v) (simp_all add: js_or_def explicit_buckets_def)

lemma get_prop_Inr: "get_prop v k = Inr x \<Longrightarrow> x = get v k"
  by (cases v) auto

lemma get_prop_defined: "v \<noteq> Undefined \<Longrightarrow> v \<noteq> Null \<Longrightarrow> get_prop v k = Inr (get v k)"
  by (cases v) auto

lemma map_throw_total:
  "\<forall>x \<in> set xs. f x = Inr (g x) \<Longrightarrow> map_throw f xs = Inr (map g xs)"
  by (induction xs) simp_all

lemma filter_named:
  "filter truthy (map (\<lambda>e. if named_bucket e then name_of e else Null) es) =
     map name_of (filter named_bucket es)"
  by (induction es) (simp_all add: named_bucket_def name_of_def)

lemma bucket_name_defined:
  assumes "get (Obj resources) k \<noteq> Undefined" and "get (Obj resources) k \<noteq> Null"
  shows "bucket_name resources k =
           Inr (if named_bucket (get (Obj resources) k) then name_of (get (Obj resources) k)
                else Null)"
  using get_prop_defined [OF assms]
  unfolding bucket_name_def named_bucket_def name_of_def Let_def
  by simp

lemma bucket_names_walk:
  assumes "\<forall>k \<in> set (map fst resources).
             get (Obj resources) k \<noteq> Undefined \<and> get (Obj resources) k \<noteq> Null"
  shows "bucket_names resources =
           Inr (map name_of (filter named_bucket (map (get (Obj resources)) (map fst resources))))"
proof -
  have "\<forall>k \<in> set (map fst resources).
          bucket_name resources k =
            Inr ((\<lambda>e. if named_bucket e then name_of e else Null) (get (Obj resources) k))"
    using assms bucket_name_defined by blast
  then have "map_throw (bucket_name resources) (map fst resources) =
               Inr (map (\<lambda>k. (\<lambda>e. if named_bucket e then name_of e else Null) (get (Obj resources) k))
                      (map fst resources))"
    by (rule map_throw_total)
  then have "bucket_names resources =
               Inr (filter truthy (map (\<lambda>e. if named_bucket e then name_of e else Null)
                      (map (get (Obj resources)) (map fst resources))))"
    by (simp add: bucket_names_def object_keys_def comp_def del: get.simps)
  then show ?thesis by (simp only: filter_named)
qed

text \<open>
  C2, as the specification states it: only entries with a non-empty literal
  \<^verbatim>\<open>BucketName\<close> contribute. It fails: a bucket whose name is the intrinsic-function
  object \<^verbatim>\<open>{Ref: LogsName}\<close> is not a literal, yet \<^verbatim>\<open>buckets\<close> returns that object as
  a name.
\<close>

theorem start_buckets_not_literal_names:
  "snd (start_buckets (constructor
           (s3_service (Obj [(''buckets'', Arr [Str ''extra''])])
              (Some [(''Logs'', bucket_entry (Obj [(''Ref'', Str ''LogsName'')]))])) []))
       = Inr [Obj [(''Ref'', Str ''LogsName'')], Str ''extra'']
   \<and> literal_names [(''Logs'', bucket_entry (Obj [(''Ref'', Str ''LogsName'')]))] [Str ''extra'']
       = [Str ''extra'']
   \<and> snd (start_buckets (constructor
           (s3_service (Obj [(''buckets'', Arr [Str ''extra''])])
              (Some [(''Logs'', bucket_entry (Obj [(''Ref'', Str ''LogsName'')]))])) []))
       \<noteq> Inr (literal_names [(''Logs'', bucket_entry (Obj [(''Ref'', Str ''LogsName'')]))]
                [Str ''extra''])"
  by code_simp

text \<open>
  C2, amended: when no entry of the walked mapping is \<^verbatim>\<open>null\<close> or \<^verbatim>\<open>undefined\<close>, the
  resolved list is the \<^verbatim>\<open>Properties.BucketName\<close> value of every entry whose \<^verbatim>\<open>Type\<close>
  is the bucket type and whose \<^verbatim>\<open>Properties\<close> and \<^verbatim>\<open>BucketName\<close> are truthy, in key
  order, followed by the explicit buckets. The name is returned as it is, literal or
  not; entries without a truthy name are skipped.
\<close>

theorem start_buckets_walk:
  assumes "collect_resources this = (this', Inr resources)"
    and "\<forall>k \<in> set (map fst resources).
           get (Obj resources) k \<noteq> Undefined \<and> get (Obj resources) k \<noteq> Null"
  shows "start_buckets this =
           (this', Inr (map name_of (filter named_bucket
                          (map (get (Obj resources)) (map fst resources)))
                        @ explicit_buckets (get (Obj (merged_options this)) ''buckets'')))"
  using assms(1) bucket_names_walk [OF assms(2)]
  by (simp add: start_buckets_def buckets_def js_concat_explicit)

theorem start_buckets_walk_witness:
  "start_buckets (constructor
       (s3_service (Obj [(''buckets'', Arr [Str ''extra''])])
          (Some [(''R1'', bucket_entry (Str ''logs'')), (''R2'', Obj [(''Type'', Str ''AWS::S3::Bucket'')])]))
       [])
   = (constructor
       (s3_service (Obj [(''buckets'', Arr [Str ''extra''])])
          (Some [(''R1'', bucket_entry (Str ''logs'')), (''R2'', Obj [(''Type'', Str ''AWS::S3::Bucket'')])]))
       [],
      Inr [Str ''logs'', Str ''extra''])"
proof -
  let ?r = "[(''R1'', bucket_entry (Str ''logs'')), (''R2'', Obj [(''Type'', Str ''AWS::S3::Bucket'')])]"
  let ?t = "constructor (s3_service (Obj [(''buckets'', Arr [Str ''extra''])]) (Some ?r)) []"
  have c: "collect_resources ?t = (?t, Inr ?r)"
    by (simp add: collect_resources_def hasAdditionalStacksPlugin_def constructor_def
          s3_service_def)
  have d: "\<forall>k \<in> set (map fst ?r). get (Obj ?r) k \<noteq> Undefined \<and> get (Obj ?r) k \<noteq> Null"
    by (simp add: bucket_entry_def)
  have e: "get (Obj (merged_options ?t)) ''buckets'' = Arr [Str ''extra'']"
    by code_simp
  show ?thesis
    using start_buckets_walk [OF c d] unfolding e
    by (simp add: explicit_buckets_def named_bucket_def name_of_def bucket_entry_def
          bucket_type_def)
qed

section \<open>Secondary stacks\<close>

lemma get_own_values: "distinct (map fst a) \<Longrightarrow> map (get (Obj a)) (map fst a) = map snd a"
proof -
  assume d: "distinct (map fst a)"
  have "get (Obj a) (fst kv) = snd kv" if "kv \<in> set a" for kv
  proof -
    from that have "(fst kv, snd kv) \<in> set a" by simp
    with d have "map_of a (fst kv) = Some (snd kv)" by (rule map_of_is_SomeI)
    then show ?thesis by simp
  qed
  then show ?thesis by (simp add: comp_def del: get.simps cong: map_cong)
qed

lemma stacks_of_object:
  assumes "getAdditionalStacks this = Inr stacks"
    and "get (custom (service this)) ''additionalStacks'' = Obj a"
    and "distinct (map fst a)"
  shows "stacks = map snd a"
proof -
  from assms(1) obtain v where v: "get_prop (custom (service this)) ''additionalStacks'' = Inr v"
    by (cases "get_prop (custom (service this)) ''additionalStacks''")
       (auto simp: getAdditionalStacks_def)
  then have "v = get (custom (service this)) ''additionalStacks''" by (rule get_prop_Inr)
  with assms(2) have va: "v = Obj a" by simp
  from assms(1) v va have "stacks = map (get (Obj a)) (map fst a)"
    by (simp add: getAdditionalStacks_def js_or_def object_keys_def del: get.simps)
  with assms(3) show ?thesis by (simp only: get_own_values)
qed

lemma merge_keys_lookup:
  "''__proto__'' \<notin> set ks \<Longrightarrow> merge_keys r ks res = (res', None) \<Longrightarrow>
   map_of res' k =
     (if k \<in> set ks \<and> get (get r k) ''Type'' = Str bucket_type then Some (get r k)
      else map_of res k)"
proof (induction ks arbitrary: res)
  case Nil
  then show ?case by simp
next
  case (Cons key ks)
  from Cons.prems(1) have key: "key \<noteq> ''__proto__''" and ks: "''__proto__'' \<notin> set ks"
    by auto
  from Cons.prems(2) obtain ty where ty: "get_prop (get r key) ''Type'' = Inr ty"
    by (cases "get_prop (get r key) ''Type''") auto
  then have ty_eq: "ty = get (get r key) ''Type''" by (rule get_prop_Inr)
  let ?res1 = "if ty = Str bucket_type then obj_set res key (get r key) else res"
  from Cons.prems(2) ty have "merge_keys r ks ?res1 = (res', None)" by simp
  with ks have IH: "map_of res' k =
     (if k \<in> set ks \<and> get (get r k) ''Type'' = Str bucket_type then Some (get r k)
      else map_of ?res1 k)"
    by (rule Cons.IH)
  show ?case
    unfolding IH using ty_eq by (auto simp: map_of_obj_set [OF key])
qed

lemma merge_stacks_lookup:
  "\<forall>stack \<in> set stacks. ''__proto__'' \<notin> set (object_keys (get stack ''Resources'')) \<Longrightarrow>
   merge_stacks stacks res = (res', None) \<Longrightarrow>
   map_of res' k = (case last_declared stacks k of Some e \<Rightarrow> Some e | None \<Rightarrow> map_of res k)"
proof (induction stacks arbitrary: res)
  case Nil
  then show ?case by simp
next
  case (Cons stack stacks)
  from Cons.prems(1)
  have np: "''__proto__'' \<notin> set (object_keys (get stack ''Resources''))"
    and nps: "\<forall>stack \<in> set stacks. ''__proto__'' \<notin> set (object_keys (get stack ''Resources''))"
    by auto
  from Cons.prems(2) obtain r where r: "get_prop stack ''Resources'' = Inr r"
    by (cases "get_prop stack ''Resources''") auto
  then have r_eq: "r = get stack ''Resources''" by (rule get_prop_Inr)
  show ?case
  proof (cases "truthy r")
    case False
    with Cons.prems(2) r have "merge_stacks stacks res = (res', None)" by simp
    with nps have "map_of res' k =
        (case last_declared stacks k of Some e \<Rightarrow> Some e | None \<Rightarrow> map_of res k)"
      by (rule Cons.IH)
    moreover from False r_eq have "declared stack k = None" by (simp add: declared_def Let_def)
    ultimately show ?thesis by (simp split: option.splits)
  next
    case True
    obtain res1 err where mk: "merge_keys r (object_keys r) res = (res1, err)"
      by (cases "merge_keys r (object_keys r) res")
    from Cons.prems(2) r True mk
    have err: "err = None" and rest: "merge_stacks stacks res1 = (res', None)"
      by (cases err; simp)+
    from np r_eq mk err have l1: "map_of res1 k =
       (if k \<in> set (object_keys r) \<and> get (get r k) ''Type'' = Str bucket_type
        then Some (get r k) else map_of res k)"
      by (simp add: merge_keys_lookup)
    from nps rest have l2: "map_of res' k =
        (case last_declared stacks k of Some e \<Rightarrow> Some e | None \<Rightarrow> map_of res1 k)"
      by (rule Cons.IH)
    from True r_eq have d: "declared stack k =
       (if k \<in> set (object_keys r) \<and> get (get r k) ''Type'' = Str bucket_type
        then Some (get r k) else None)"
      by (simp add: declared_def Let_def)
    show ?thesis
      unfolding l2 l1 last_declared.simps d by (auto split: option.splits)
  qed
qed

lemma map_throw_member:
  "map_throw f xs = Inr ys \<Longrightarrow> x \<in> set xs \<Longrightarrow> \<exists>y \<in> set ys. f x = Inr y"
proof (induction xs arbitrary: ys)
  case Nil
  then show ?case by simp
next
  case (Cons a xs)
  from Cons.prems(1) obtain y ys' where fa: "f a = Inr y" and m: "map_throw f xs = Inr ys'"
    and ys: "ys = y # ys'"
    by (auto split: sum.splits)
  show ?case
  proof (cases "x = a")
    case True
    with fa ys show ?thesis by simp
  next
    case False
    with Cons.prems(2) have "x \<in> set xs" by simp
    with Cons.IH [OF m] ys show ?thesis by auto
  qed
qed

lemma map_throw_source:
  "map_throw f xs = Inr ys \<Longrightarrow> y \<in> set ys \<Longrightarrow> \<exists>x \<in> set xs. f x = Inr y"
proof (induction xs arbitrary: ys)
  case Nil
  then show ?case by simp
next
  case (Cons a xs)
  from Cons.prems(1) obtain y0 ys' where fa: "f a = Inr y0" and m: "map_throw f xs = Inr ys'"
    and ys: "ys = y0 # ys'"
    by (auto split: sum.splits)
  show ?case
  proof (cases "y = y0")
    case True
    with fa show ?thesis by simp
  next
    case False
    with Cons.prems(2) ys have "y \<in> set ys'" by simp
    with Cons.IH [OF m] show ?thesis by auto
  qed
qed

lemma named_bucket_name:
  assumes "map_of resources k = Some e" and "named_bucket e"
    and "bucket_names resources = Inr names"
  shows "name_of e \<in> set names"
proof -
  from assms(1) have k: "k \<in> set (object_keys (Obj resources))"
    by (auto simp: object_keys_def dest: map_of_SomeD intro: rev_image_eqI)
  from assms(1) have e: "get (Obj resources) k = e" by simp
  from assms(2) have ne: "e \<noteq> Undefined" "e \<noteq> Null"
    by (auto simp: named_bucket_def)
  from e ne have bn: "bucket_name resources k = Inr (name_of e)"
    using bucket_name_defined [of resources k] assms(2) by simp
  from assms(3) obtain ns
    where ns: "map_throw (bucket_name resources) (object_keys (Obj resources)) = Inr ns"
    and names: "names = filter truthy ns"
    by (auto simp: bucket_names_def split: sum.splits)
  from map_throw_member [OF ns k] bn have "name_of e \<in> set ns" by simp
  moreover from assms(2) have "truthy (name_of e)" by (simp add: named_bucket_def name_of_def)
  ultimately show ?thesis using names by simp
qed

lemma name_from_entry:
  assumes "bucket_names resources = Inr names" and "n \<in> set names"
  shows "\<exists>k e. map_of resources k = Some e \<and> named_bucket e \<and> n = name_of e"
proof -
  from assms(1) obtain ns
    where ns: "map_throw (bucket_name resources) (object_keys (Obj resources)) = Inr ns"
    and names: "names = filter truthy ns"
    by (auto simp: bucket_names_def split: sum.splits)
  from assms(2) names have n: "n \<in> set ns" and t: "truthy n" by auto
  from map_throw_source [OF ns n] obtain k
    where k: "k \<in> set (object_keys (Obj resources))" and bn: "bucket_name resources k = Inr n"
    by blast
  from k obtain e where m: "map_of resources k = Some e"
    by (cases "map_of resources k") (auto simp: object_keys_def map_of_eq_None_iff)
  then have g: "get (Obj resources) k = e" by simp
  from bn g obtain ty where ty: "get_prop e ''Type'' = Inr ty"
    by (cases "get_prop e ''Type''") (auto simp: bucket_name_def Let_def simp del: get.simps)
  then have ty_eq: "ty = get e ''Type''" by (rule get_prop_Inr)
  have "named_bucket e \<and> n = name_of e"
  proof (cases "named_bucket e")
    case True
    with bn g ty ty_eq show ?thesis
      by (auto simp: bucket_name_def Let_def named_bucket_def name_of_def simp del: get.simps)
  next
    case False
    with bn g ty ty_eq have "n = Null"
      by (auto simp: bucket_name_def Let_def named_bucket_def simp del: get.simps)
    with t show ?thesis by simp
  qed
  with m show ?thesis by blast
qed

text \<open>
  C3, as the specification states it: a secondary stack that declares a bucket under
  a key of the template has its bucket name in the resolved list. It fails in two
  ways. When two secondary stacks declare the same key, the later one overwrites the
  earlier one, whose name is then absent; and an empty resource beside the bucket
  makes \<^verbatim>\<open>buckets\<close> throw, so that nothing is resolved at all.
\<close>

theorem first_secondary_stack_overwritten:
  "hasAdditionalStacksPlugin two_stacks
   \<and> declared first_stack ''Data'' = Some (bucket_entry (Str ''first''))
   \<and> map_of [(''Data'', bucket_entry (Str ''primary''))] ''Data''
       = Some (bucket_entry (Str ''primary''))
   \<and> Resources (service two_stacks) = Some [(''Data'', bucket_entry (Str ''primary''))]
   \<and> getAdditionalStacks two_stacks
       = Inr [first_stack,
              Obj [(''Resources'', Obj [(''Data'', bucket_entry (Str ''second''))])]]
   \<and> snd (buckets two_stacks) = Inr [Str ''second'']
   \<and> Str ''first'' \<notin> set [Str ''second'']
   \<and> hasAdditionalStacksPlugin null_sibling
   \<and> snd (buckets null_sibling) = Inl TypeError"
  by code_simp

text \<open>
  C3, amended: with the additional-stacks plugin declared, no secondary resource keyed
  \<^verbatim>\<open>__proto__\<close>, and the merge not throwing, the secondary stacks are the values of
  \<^verbatim>\<open>custom.additionalStacks\<close> in key order, and the mapping that is walked holds under
  every key the entry of the last secondary stack that declares the key with the
  bucket type, and the template's own entry only when no stack does (so a secondary
  entry of another type is never merged). When the walk returns, the name of such a
  secondary entry is in the list, and every name in the list is the name of an entry
  of that mapping (a replaced template entry contributes nothing).
\<close>

theorem secondary_stack_wins:
  assumes "hasAdditionalStacksPlugin this"
    and "getAdditionalStacks this = Inr stacks"
    and "\<forall>stack \<in> set stacks. ''__proto__'' \<notin> set (object_keys (get stack ''Resources''))"
    and "collect_resources this = (this', Inr resources)"
  shows "map_of resources k =
           (case last_declared stacks k of
              Some e \<Rightarrow> Some e
            | None \<Rightarrow> map_of (case Resources (service this) of Some r \<Rightarrow> r | None \<Rightarrow> []) k)
         \<and> (\<forall>e names. last_declared stacks k = Some e \<and> named_bucket e
               \<and> buckets this = (this', Inr names) \<longrightarrow> name_of e \<in> set names)
         \<and> (\<forall>names n. buckets this = (this', Inr names) \<and> n \<in> set names \<longrightarrow>
               (\<exists>k' e. map_of resources k' = Some e \<and> named_bucket e \<and> n = name_of e))
         \<and> (\<forall>a. get (custom (service this)) ''additionalStacks'' = Obj a
                  \<and> distinct (map fst a) \<longrightarrow> stacks = map snd a)"
proof -
  let ?r0 = "case Resources (service this) of Some r \<Rightarrow> r | None \<Rightarrow> []"
  from assms(1,2,4) have ms: "merge_stacks stacks ?r0 = (resources, None)"
    by (auto simp: collect_resources_def Let_def split: prod.splits option.splits)
  have lk: "map_of resources k =
           (case last_declared stacks k of Some e \<Rightarrow> Some e | None \<Rightarrow> map_of ?r0 k)"
    using assms(3) ms by (rule merge_stacks_lookup)
  have b: "buckets this = (this', bucket_names resources)"
    using assms(4) by (simp add: buckets_def)
  have c3: "name_of e \<in> set names"
    if "last_declared stacks k = Some e" "named_bucket e" "buckets this = (this', Inr names)"
    for e names
  proof -
    from that(1) lk have m: "map_of resources k = Some e" by simp
    from that(3) b have n: "bucket_names resources = Inr names" by simp
    from m that(2) n show ?thesis by (rule named_bucket_name)
  qed
  have c4: "\<exists>k' e. map_of resources k' = Some e \<and> named_bucket e \<and> n = name_of e"
    if "buckets this = (this', Inr names)" "n \<in> set names" for names n
  proof -
    from that(1) b have "bucket_names resources = Inr names" by simp
    then show ?thesis using that(2) by (rule name_from_entry)
  qed
  have c5: "stacks = map snd a"
    if "get (custom (service this)) ''additionalStacks'' = Obj a" "distinct (map fst a)" for a
    using assms(2) that by (rule stacks_of_object)
  from lk c3 c4 c5 show ?thesis by blast
qed

theorem secondary_stack_wins_witness:
  "hasAdditionalStacksPlugin two_stacks
   \<and> last_declared
        [first_stack, Obj [(''Resources'', Obj [(''Data'', bucket_entry (Str ''second''))])]]
        ''Data'' = Some (bucket_entry (Str ''second''))
   \<and> named_bucket (bucket_entry (Str ''second''))
   \<and> snd (buckets two_stacks) = Inr [Str ''second'']
   \<and> name_of (bucket_entry (Str ''second'')) \<in> set [Str ''second'']
   \<and> last_declared [second_stack] ''Queue'' = None
   \<and> snd (buckets stacked) = Inr [Str ''secondary'']"
proof -
  let ?s2 = "Obj [(''Resources'', Obj [(''Data'', bucket_entry (Str ''second''))])]"
  let ?r = "[(''Data'', bucket_entry (Str ''second''))]"
  let ?t = "two_stacks\<lparr>service := (service two_stacks)\<lparr>Resources := Some ?r\<rparr>\<rparr>"
  have h: "hasAdditionalStacksPlugin two_stacks" by code_simp
  have g: "getAdditionalStacks two_stacks = Inr [first_stack, ?s2]" by code_simp
  have p: "\<forall>stack \<in> set [first_stack, ?s2].
             ''__proto__'' \<notin> set (object_keys (get stack ''Resources''))"
    by code_simp
  have c: "collect_resources two_stacks = (?t, Inr ?r)" by code_simp
  have b: "buckets two_stacks = (?t, Inr [Str ''second''])" by code_simp
  have d: "last_declared [first_stack, ?s2] ''Data'' = Some (bucket_entry (Str ''second''))"
    by code_simp
  have nb: "named_bucket (bucket_entry (Str ''second''))" by code_simp
  note secondary_stack_wins [OF h g p c, of "''Data''", THEN conjunct2, THEN conjunct1]
  then have "\<forall>e names. last_declared [first_stack, ?s2] ''Data'' = Some e \<and> named_bucket e
               \<and> buckets two_stacks = (?t, Inr names) \<longrightarrow> name_of e \<in> set names" .
  with d nb b have n: "name_of (bucket_entry (Str ''second'')) \<in> set [Str ''second'']"
    by blast
  have q: "last_declared [second_stack] ''Queue'' = None" by code_simp
  have s: "snd (buckets stacked) = Inr [Str ''secondary'']" by code_simp
  from h d nb b n q s show ?thesis by simp
qed

section \<open>Start and stop\<close>

lemma collect_resources_frame:
  "options (fst (collect_resources this)) = options this
   \<and> client (fst (collect_resources this)) = client this
   \<and> custom (service (fst (collect_resources this))) = custom (service this)
   \<and> plugins (service (fst (collect_resources this))) = plugins (service this)"
  by (simp add: collect_resources_def Let_def split: sum.splits prod.splits option.splits)

lemma buckets_fst: "fst (buckets this) = fst (collect_resources this)"
  by (simp add: buckets_def split: prod.splits sum.splits)

lemma start_buckets_fst: "fst (start_buckets this) = fst (collect_resources this)"
  by (simp add: start_buckets_def buckets_fst [symmetric] split: prod.splits sum.splits)

lemma executor_Create:
  assumes "executor w this = (this', evs, Create p bs)"
  shows "truthy (get (Obj (merged_options this)) ''noStart'') \<and> evs = []
         \<and> p = js_or (get (Obj (merged_options this)) ''port'') (Num 4569)
         \<and> start_buckets this = (this', Inr bs)"
  using assms
  by (auto simp: executor_def Let_def simp del: get.simps
        split: prod.splits sum.splits if_splits option.splits)

lemma executor_Awaiting:
  assumes "executor w this = (this', evs, Awaiting cfg bs)"
  shows "\<not> truthy (get (Obj (merged_options this)) ''noStart'')
         \<and> (\<exists>this1 srv. start_buckets this = (this1, Inr bs)
               \<and> this' = this1\<lparr>client := Some srv\<rparr> \<and> s3rver_run w cfg = Inr srv)
         \<and> S3rverRun cfg \<in> set evs \<and> (\<forall>e \<in> set evs. \<not> is_creation e)
         \<and> port cfg = js_or (get (Obj (merged_options this)) ''port'') (Num 4569)
         \<and> hostname cfg = js_or (get (Obj (merged_options this)) ''host'') (Str ''localhost'')"
  using assms
  by (auto simp: executor_def Let_def simp del: get.simps
        split: prod.splits sum.splits if_splits option.splits)

lemma executor_Settled:
  assumes "executor w this = (this', evs, Settled out)"
  shows "(\<exists>e. out = Rejected e) \<and> this' = fst (start_buckets this)
         \<and> (\<forall>e \<in> set evs. \<not> is_creation e)"
  using assms
  by (auto simp: executor_def Let_def simp del: get.simps
        split: prod.splits sum.splits if_splits option.splits)



lemma executor_Awaiting_run:
  assumes "executor w this = (this', evs, Awaiting cfg bs)"
  shows "\<exists>this1 srv d.
           start_buckets this = (this1, Inr bs)
           \<and> ensureDirSync w (js_or (get (Obj (merged_options this)) ''directory'')
                                 (Str ''./buckets'')) = None
           \<and> realpathSync w (js_or (get (Obj (merged_options this)) ''directory'')
                                (Str ''./buckets'')) = Inr d
           \<and> cfg = \<lparr>port = js_or (get (Obj (merged_options this)) ''port'') (Num 4569),
                    hostname = js_or (get (Obj (merged_options this)) ''host'')
                                 (Str ''localhost''),
                    silent = False, directory = d,
                    cors = js_or (get (Obj (merged_options this)) ''cors'') (Bool False)\<rparr>
           \<and> s3rver_run w cfg = Inr srv \<and> this' = this1\<lparr>client := Some srv\<rparr>"
  using assms
  by (auto simp: executor_def Let_def simp del: get.simps
        split: prod.splits sum.splits if_splits option.splits)

lemma executor_run:
  assumes "\<not> truthy (get (Obj (merged_options this)) ''noStart'')"
    and "start_buckets this = (this1, Inr bs)"
    and "ensureDirSync w (js_or (get (Obj (merged_options this)) ''directory'')
                            (Str ''./buckets'')) = None"
    and "realpathSync w (js_or (get (Obj (merged_options this)) ''directory'')
                           (Str ''./buckets'')) = Inr d"
    and "s3rver_run w
           \<lparr>port = js_or (get (Obj (merged_options this)) ''port'') (Num 4569),
            hostname = js_or (get (Obj (merged_options this)) ''host'') (Str ''localhost''),
            silent = False, directory = d,
            cors = js_or (get (Obj (merged_options this)) ''cors'') (Bool False)\<rparr> = Inr srv"
  shows "client (fst (executor w this)) = Some srv"
  using assms by (simp add: executor_def Let_def del: get.simps)

lemma executor_client_kept:
  assumes "executor w this = (this', evs, k)" and "\<forall>cfg bs. k \<noteq> Awaiting cfg bs"
  shows "client this' = client this"
proof (cases k)
  case (Settled out)
  from executor_Settled [OF assms(1) [unfolded Settled]]
  have "this' = fst (collect_resources this)" by (simp add: start_buckets_fst)
  then show ?thesis by (simp add: collect_resources_frame)
next
  case (Create p bs)
  from executor_Create [OF assms(1) [unfolded Create]]
  have "this' = fst (start_buckets this)" by simp
  then have "this' = fst (collect_resources this)" by (simp add: start_buckets_fst)
  then show ?thesis by (simp add: collect_resources_frame)
next
  case (Awaiting cfg bs)
  with assms(2) show ?thesis by simp
qed

lemma startHandler_client: "client (fst (startHandler w this)) = client (fst (executor w this))"
proof -
  obtain t1 evs1 k where ex: "executor w this = (t1, evs1, k)"
    by (cases "executor w this") auto
  then show ?thesis by (cases k) (auto simp: startHandler_def split: prod.splits)
qed

lemma startHandler_events_prefix:
  "executor w this = (this', evs, k) \<Longrightarrow> set evs \<subseteq> set (fst (snd (startHandler w this)))"
  by (cases k) (auto simp: startHandler_def split: prod.splits)



lemma create_events_NewS3: "NewS3 ep' \<notin> set (create_events ep bs)"
  by (induction bs) (simp_all add: create_events_def)





text \<open>
  C4: when the executor has called \<^verbatim>\<open>run\<close> and the callback receives a truthy
  \<^verbatim>\<open>err\<close>, the promise is rejected with that \<^verbatim>\<open>err\<close>, and the whole start sequence
  has built no storage client and issued no \<^verbatim>\<open>createBucket\<close> request.
\<close>

theorem startup_error_rejects:
  assumes "executor w this = (this', evs, Awaiting cfg bs)"
    and "s3rver_callback w cfg = (err, h, p)"
    and "truthy err"
  shows "startHandler w this =
           (this', evs @ [ConsoleError ''Error occurred while starting S3 local.''],
            Rejected (Value err))
         \<and> (\<forall>e \<in> set (fst (snd (startHandler w this))). \<not> is_creation e)"
proof -
  have s: "startHandler w this =
           (this', evs @ [ConsoleError ''Error occurred while starting S3 local.''],
            Rejected (Value err))"
    using assms by (simp add: startHandler_def run_callback_def)
  from executor_Awaiting [OF assms(1)] have "\<forall>e \<in> set evs. \<not> is_creation e" by blast
  with s show ?thesis by simp
qed

theorem startup_error_rejects_witness:
  "snd (snd (startHandler port_taken logs_extra)) = Rejected (Value (Str ''EADDRINUSE''))
   \<and> create_calls (fst (snd (startHandler port_taken logs_extra))) = []"
proof -
  let ?cfg = "\<lparr>port = Num 4569, hostname = Str ''localhost'', silent = False,
              directory = ''/srv/buckets'', cors = Bool False\<rparr>"
  let ?evs = "[EnsureDirSync (Str ''./buckets''), RealpathSync (Str ''./buckets''),
               S3rverRun ?cfg]"
  have e: "executor port_taken logs_extra =
             (logs_extra\<lparr>client := Some 7\<rparr>, ?evs, Awaiting ?cfg [Str ''logs'', Str ''extra''])"
    by code_simp
  have c: "s3rver_callback port_taken ?cfg = (Str ''EADDRINUSE'', Undefined, Undefined)"
    by (simp add: port_taken_def calm_def)
  have t: "truthy (Str ''EADDRINUSE'')" by simp
  from startup_error_rejects [OF e c t] show ?thesis by simp
qed



text \<open>
  C6, as the specification states it: the client's endpoint carries the configured
  host name. It fails: with \<^verbatim>\<open>host: storage.test\<close> configured, the client is built
  for \<^verbatim>\<open>http://localhost:4569\<close>.
\<close>

theorem client_endpoint_not_hostname:
  "fst (snd (startHandler calm remote_host))
     = [NewS3 ''http://localhost:4569'', CliLog ''creating bucket: a'',
        CreateBucket ''http://localhost:4569'' (Str ''a'')]
   \<and> get (Obj (merged_options remote_host)) ''host'' = Str ''storage.test''
   \<and> spec_endpoint (Str ''storage.test'') (Num 4569) = ''http://storage.test:4569''
   \<and> NewS3 (spec_endpoint (Str ''storage.test'') (Num 4569))
         \<notin> set (fst (snd (startHandler calm remote_host)))"
  by code_simp

text \<open>
  C6, amended: every storage client built during a start is built for
  \<^verbatim>\<open>http://localhost:{port}\<close>, whatever host is configured; the port is the configured
  one (4569 by default) when \<^verbatim>\<open>noStart\<close> is set, and the one the server reported to
  the callback otherwise.
\<close>

theorem client_endpoint_localhost:
  assumes "startHandler w this = (this', evs, out)" and "NewS3 ep \<in> set evs"
  shows "(truthy (get (Obj (merged_options this)) ''noStart'') \<longrightarrow>
            ep = ''http://localhost:''
                   @ to_string (js_or (get (Obj (merged_options this)) ''port'') (Num 4569)))
         \<and> (\<not> truthy (get (Obj (merged_options this)) ''noStart'') \<longrightarrow>
              (\<exists>cfg err h p. S3rverRun cfg \<in> set evs \<and> s3rver_callback w cfg = (err, h, p)
                 \<and> ep = ''http://localhost:'' @ to_string p))"
proof -
  obtain t1 evs1 k where ex: "executor w this = (t1, evs1, k)"
    by (cases "executor w this") auto
  show ?thesis
  proof (cases k)
    case (Settled out')
    with ex assms(1) have "evs = evs1" by (simp add: startHandler_def)
    with executor_Settled [OF ex [unfolded Settled]] assms(2) show ?thesis by fastforce
  next
    case (Create p bs)
    from executor_Create [OF ex [unfolded Create]]
    have n: "truthy (get (Obj (merged_options this)) ''noStart'')" and e1: "evs1 = []"
      and p: "p = js_or (get (Obj (merged_options this)) ''port'') (Num 4569)" by blast+
    from ex Create assms(1) e1 have "evs = fst (createBuckets w p bs)"
      by (auto simp: startHandler_def split: prod.splits)
    with assms(2) have "ep = endpoint p"
      by (cases "bs = []") (auto simp: createBuckets_def create_events_NewS3)
    with n p show ?thesis by (simp add: endpoint_def)
  next
    case (Awaiting cfg bs)
    from executor_Awaiting [OF ex [unfolded Awaiting]]
    have n: "\<not> truthy (get (Obj (merged_options this)) ''noStart'')"
      and r: "S3rverRun cfg \<in> set evs1" and nc: "\<forall>e \<in> set evs1. \<not> is_creation e" by blast+
    obtain err h p where cb: "s3rver_callback w cfg = (err, h, p)"
      by (cases "s3rver_callback w cfg") auto
    from ex Awaiting assms(1) cb have evs: "evs = evs1 @ fst (run_callback w bs (err, h, p))"
      by (auto simp: startHandler_def split: prod.splits)
    from nc have "NewS3 ep \<notin> set evs1" by fastforce
    with assms(2) evs have "NewS3 ep \<in> set (fst (run_callback w bs (err, h, p)))" by simp
    then have "ep = endpoint p"
      by (cases "bs = []")
         (auto simp: run_callback_def createBuckets_def create_events_NewS3 split: if_splits)
    with n r cb evs show ?thesis by (auto simp: endpoint_def)
  qed
qed

theorem client_endpoint_localhost_witness:
  "NewS3 ''http://localhost:4569'' \<in> set (fst (snd (startHandler calm remote_host)))
   \<and> truthy (get (Obj (merged_options remote_host)) ''noStart'')
   \<and> NewS3 ''http://localhost:51234'' \<in> set (fst (snd (startHandler ephemeral logs_extra)))
   \<and> \<not> truthy (get (Obj (merged_options logs_extra)) ''noStart'')"
proof -
  let ?cfg = "\<lparr>port = Num 4569, hostname = Str ''localhost'', silent = False,
              directory = ''/srv/buckets'', cors = Bool False\<rparr>"
  let ?evs1 = "[NewS3 ''http://localhost:4569'', CliLog ''creating bucket: a'',
                CreateBucket ''http://localhost:4569'' (Str ''a'')]"
  let ?evs2 = "[EnsureDirSync (Str ''./buckets''), RealpathSync (Str ''./buckets''),
                S3rverRun ?cfg, ConsoleLog ''S3 local started ( port:51234 )'',
                NewS3 ''http://localhost:51234'',
                CliLog ''creating bucket: logs'',
                CreateBucket ''http://localhost:51234'' (Str ''logs''),
                CliLog ''creating bucket: extra'',
                CreateBucket ''http://localhost:51234'' (Str ''extra'')]"
  have s1: "startHandler calm remote_host = (remote_host, ?evs1, Resolved)" by code_simp
  have m1: "NewS3 ''http://localhost:4569'' \<in> set ?evs1" by simp
  have n1: "truthy (get (Obj (merged_options remote_host)) ''noStart'')" by code_simp
  have p1: "to_string (js_or (get (Obj (merged_options remote_host)) ''port'') (Num 4569))
              = ''4569''"
    by code_simp
  have s2: "startHandler ephemeral logs_extra = (logs_extra\<lparr>client := Some 7\<rparr>, ?evs2, Resolved)"
    by code_simp
  have m2: "NewS3 ''http://localhost:51234'' \<in> set ?evs2" by simp
  have n2: "\<not> truthy (get (Obj (merged_options logs_extra)) ''noStart'')" by code_simp
  from client_endpoint_localhost [OF s1 m1] client_endpoint_localhost [OF s2 m2]
  show ?thesis using s1 s2 n1 n2 m1 m2 by simp
qed

text \<open>
  C7, at the input where the claim fails: \<^verbatim>\<open>noStart\<close> is set in \<^verbatim>\<open>custom.s3\<close> and not
  in the run options. \<^verbatim>\<open>startHandler\<close> honours it and starts no server, so
  \<^verbatim>\<open>this.client\<close> stays \<^verbatim>\<open>null\<close>; \<^verbatim>\<open>endHandler\<close> reads \<^verbatim>\<open>this.options.noStart\<close> only,
  goes on to \<^verbatim>\<open>this.client.close()\<close> and throws.
\<close>

theorem endHandler_after_config_noStart:
  "startHandler calm config_noStart =
     (config_noStart,
      [NewS3 ''http://localhost:4569'', CliLog ''creating bucket: a'',
       CreateBucket ''http://localhost:4569'' (Str ''a'')],
      Resolved)
   \<and> endHandler (fst (startHandler calm config_noStart)) = ([], Some TypeError)"
  by code_simp



text \<open>
  C9, as the specification states it: the handle is non-null only after startup has
  reported success. It fails: when the server reports a startup error the promise is
  rejected and \<^verbatim>\<open>this.client\<close> holds the server all the same.
\<close>

theorem client_kept_on_startup_error:
  "snd (snd (startHandler port_taken logs_extra)) = Rejected (Value (Str ''EADDRINUSE''))
   \<and> client logs_extra = None
   \<and> client (fst (startHandler port_taken logs_extra)) = Some 7
   \<and> client (fst (startHandler port_taken logs_extra)) \<noteq> None"
  by code_simp

text \<open>
  C9, amended: \<^verbatim>\<open>this.client\<close> is assigned in the executor, when \<^verbatim>\<open>run\<close> returns, and
  what the callback reports later does not change it. Starting from \<^verbatim>\<open>null\<close>, it
  holds a server after the start exactly when \<^verbatim>\<open>noStart\<close> is falsy in the merged
  options, bucket resolution did not throw, the directory was created and resolved,
  and \<^verbatim>\<open>run\<close>, called with the configured options and that directory, returned that
  server; the call to \<^verbatim>\<open>run\<close> is then among the calls made.
\<close>

theorem client_set_when_run_returns:
  assumes "client this = None"
  shows "client (fst (startHandler w this)) = client (fst (executor w this))
         \<and> ((client (fst (startHandler w this)) = Some srv) =
             (\<not> truthy (get (Obj (merged_options this)) ''noStart'')
              \<and> (\<exists>this1 bs. start_buckets this = (this1, Inr bs))
              \<and> ensureDirSync w (js_or (get (Obj (merged_options this)) ''directory'')
                                    (Str ''./buckets'')) = None
              \<and> (\<exists>d. realpathSync w (js_or (get (Obj (merged_options this)) ''directory'')
                                         (Str ''./buckets'')) = Inr d
                     \<and> s3rver_run w
                         \<lparr>port = js_or (get (Obj (merged_options this)) ''port'') (Num 4569),
                          hostname = js_or (get (Obj (merged_options this)) ''host'')
                                       (Str ''localhost''),
                          silent = False, directory = d,
                          cors = js_or (get (Obj (merged_options this)) ''cors'')
                                   (Bool False)\<rparr> = Inr srv)))
         \<and> (client (fst (startHandler w this)) = Some srv \<longrightarrow>
              (\<exists>cfg. S3rverRun cfg \<in> set (fst (snd (startHandler w this)))
                     \<and> s3rver_run w cfg = Inr srv))"
proof -
  obtain t1 evs1 k where ex: "executor w this = (t1, evs1, k)"
    by (cases "executor w this") auto
  have a: "client (fst (startHandler w this)) = client (fst (executor w this))"
    by (rule startHandler_client)
  have cl: "client (fst (startHandler w this)) = client t1" using a ex by simp
  let ?cond = "\<not> truthy (get (Obj (merged_options this)) ''noStart'')
              \<and> (\<exists>this1 bs. start_buckets this = (this1, Inr bs))
              \<and> ensureDirSync w (js_or (get (Obj (merged_options this)) ''directory'')
                                    (Str ''./buckets'')) = None
              \<and> (\<exists>d. realpathSync w (js_or (get (Obj (merged_options this)) ''directory'')
                                         (Str ''./buckets'')) = Inr d
                     \<and> s3rver_run w
                         \<lparr>port = js_or (get (Obj (merged_options this)) ''port'') (Num 4569),
                          hostname = js_or (get (Obj (merged_options this)) ''host'')
                                       (Str ''localhost''),
                          silent = False, directory = d,
                          cors = js_or (get (Obj (merged_options this)) ''cors'')
                                   (Bool False)\<rparr> = Inr srv)"
  have fwd: "?cond \<and> (\<exists>cfg. S3rverRun cfg \<in> set (fst (snd (startHandler w this)))
                          \<and> s3rver_run w cfg = Inr srv)"
    if some: "client t1 = Some srv"
  proof -
    have "\<exists>cfg bs. k = Awaiting cfg bs"
    proof (rule ccontr)
      assume "\<not> (\<exists>cfg bs. k = Awaiting cfg bs)"
      then have "\<forall>cfg bs. k \<noteq> Awaiting cfg bs" by simp
      from executor_client_kept [OF ex this] assms some show False by simp
    qed
    then obtain cfg bs where k: "k = Awaiting cfg bs" by blast
    from executor_Awaiting [OF ex [unfolded k]]
    have n: "\<not> truthy (get (Obj (merged_options this)) ''noStart'')"
      and r: "S3rverRun cfg \<in> set evs1" by blast+
    from startHandler_events_prefix [OF ex] r
    have r': "S3rverRun cfg \<in> set (fst (snd (startHandler w this)))" by blast
    from executor_Awaiting_run [OF ex [unfolded k]] obtain this1 srv' d
      where sb: "start_buckets this = (this1, Inr bs)"
      and ed: "ensureDirSync w (js_or (get (Obj (merged_options this)) ''directory'')
                                 (Str ''./buckets'')) = None"
      and rp: "realpathSync w (js_or (get (Obj (merged_options this)) ''directory'')
                                (Str ''./buckets'')) = Inr d"
      and cfg: "cfg = \<lparr>port = js_or (get (Obj (merged_options this)) ''port'') (Num 4569),
                    hostname = js_or (get (Obj (merged_options this)) ''host'')
                                 (Str ''localhost''),
                    silent = False, directory = d,
                    cors = js_or (get (Obj (merged_options this)) ''cors'') (Bool False)\<rparr>"
      and run: "s3rver_run w cfg = Inr srv'" and t1: "t1 = this1\<lparr>client := Some srv'\<rparr>"
      by blast
    from t1 some have "srv' = srv" by simp
    with n sb ed rp cfg run r' show ?thesis by blast
  qed
  have bwd: "client t1 = Some srv" if ?cond
  proof -
    from that obtain this1 bs d where
      "\<not> truthy (get (Obj (merged_options this)) ''noStart'')"
      "start_buckets this = (this1, Inr bs)"
      "ensureDirSync w (js_or (get (Obj (merged_options this)) ''directory'')
                          (Str ''./buckets'')) = None"
      "realpathSync w (js_or (get (Obj (merged_options this)) ''directory'')
                         (Str ''./buckets'')) = Inr d"
      "s3rver_run w
         \<lparr>port = js_or (get (Obj (merged_options this)) ''port'') (Num 4569),
          hostname = js_or (get (Obj (merged_options this)) ''host'') (Str ''localhost''),
          silent = False, directory = d,
          cors = js_or (get (Obj (merged_options this)) ''cors'') (Bool False)\<rparr> = Inr srv"
      by blast
    from executor_run [OF this] ex show ?thesis by simp
  qed
  from a cl fwd bwd show ?thesis by metis
qed

theorem client_set_when_run_returns_witness:
  "client logs_extra = None
   \<and> client (fst (startHandler port_taken logs_extra)) = Some 7
   \<and> client (fst (startHandler run_throws logs_extra)) \<noteq> Some 7
   \<and> client (fst (startHandler calm external)) \<noteq> Some 7"
proof -
  let ?cfg = "\<lparr>port = Num 4569, hostname = Str ''localhost'', silent = False,
              directory = ''/srv/buckets'', cors = Bool False\<rparr>"
  have a: "client logs_extra = None" by code_simp
  have a': "client external = None" by code_simp
  have n: "\<not> truthy (get (Obj (merged_options logs_extra)) ''noStart'')" by code_simp
  have sb: "start_buckets logs_extra = (logs_extra, Inr [Str ''logs'', Str ''extra''])"
    by code_simp
  have dp: "js_or (get (Obj (merged_options logs_extra)) ''directory'') (Str ''./buckets'')
              = Str ''./buckets''"
    by code_simp
  have pt: "js_or (get (Obj (merged_options logs_extra)) ''port'') (Num 4569) = Num 4569"
    by code_simp
  have ho: "js_or (get (Obj (merged_options logs_extra)) ''host'') (Str ''localhost'')
              = Str ''localhost''"
    by code_simp
  have co: "js_or (get (Obj (merged_options logs_extra)) ''cors'') (Bool False) = Bool False"
    by code_simp
  have w1: "ensureDirSync port_taken (Str ''./buckets'') = None"
    "realpathSync port_taken (Str ''./buckets'') = Inr ''/srv/buckets''"
    "s3rver_run port_taken ?cfg = Inr 7"
    by (simp_all add: port_taken_def calm_def)
  have w2: "\<And>cfg. s3rver_run run_throws cfg \<noteq> Inr 7"
    by (simp add: run_throws_def calm_def)
  have n': "truthy (get (Obj (merged_options external)) ''noStart'')" by code_simp
  from client_set_when_run_returns [OF a, of port_taken 7] n sb w1
  have b: "client (fst (startHandler port_taken logs_extra)) = Some 7"
    unfolding dp pt ho co by blast
  from client_set_when_run_returns [OF a, of run_throws 7] w2
  have c: "client (fst (startHandler run_throws logs_extra)) \<noteq> Some 7" by blast
  from client_set_when_run_returns [OF a', of calm 7] n'
  have d: "client (fst (startHandler calm external)) \<noteq> Some 7" by blast
  from a b c d show ?thesis by simp
qed

text \<open>
  C10, as the specification states it: \<^verbatim>\<open>buckets\<close> leaves the template's resource
  mapping as it was. It fails: with a secondary stack declaring the bucket \<^verbatim>\<open>Data\<close>,
  the template's own \<^verbatim>\<open>Data\<close> entry has been overwritten when \<^verbatim>\<open>buckets\<close> returns.
\<close>

theorem buckets_writes_template:
  "Resources (service stacked) = Some [(''Data'', bucket_entry (Str ''primary''))]
   \<and> Resources (service (fst (buckets stacked)))
       = Some [(''Data'', bucket_entry (Str ''secondary''))]
   \<and> service (fst (buckets stacked)) \<noteq> service stacked"
  by code_simp

text \<open>
  C10, amended: \<^verbatim>\<open>buckets\<close> never changes the run options, the plugin list or the
  server handle, and returns the instance as it was when the plugin is not declared or
  the template has no resource mapping. Otherwise it writes into the template's own
  mapping: when no secondary resource is keyed \<^verbatim>\<open>__proto__\<close> and the merge does not
  throw, that mapping holds afterwards, under every key, the entry of the last
  secondary stack that declares the key with the bucket type, and its former entry
  only where no stack does; the secondary stacks being the values of
  \<^verbatim>\<open>custom.additionalStacks\<close> in key order.
\<close>

theorem buckets_frame:
  "options (fst (buckets this)) = options this
   \<and> client (fst (buckets this)) = client this
   \<and> plugins (service (fst (buckets this))) = plugins (service this)
   \<and> (\<not> hasAdditionalStacksPlugin this \<or> Resources (service this) = None \<longrightarrow>
        fst (buckets this) = this)
   \<and> (hasAdditionalStacksPlugin this \<and> getAdditionalStacks this = Inr stacks
        \<and> (\<forall>stack \<in> set stacks. ''__proto__'' \<notin> set (object_keys (get stack ''Resources'')))
        \<and> Resources (service this) = Some r
        \<and> snd (collect_resources this) = Inr merged \<longrightarrow>
        (\<exists>r'. Resources (service (fst (buckets this))) = Some r'
              \<and> (\<forall>k. map_of r' k =
                         (case last_declared stacks k of
                            Some e \<Rightarrow> Some e
                          | None \<Rightarrow> map_of r k)))
        \<and> (\<forall>a. get (custom (service this)) ''additionalStacks'' = Obj a
                 \<and> distinct (map fst a) \<longrightarrow> stacks = map snd a))"
proof -
  have f: "options (fst (buckets this)) = options this
           \<and> client (fst (buckets this)) = client this
           \<and> plugins (service (fst (buckets this))) = plugins (service this)"
    unfolding buckets_fst by (simp add: collect_resources_frame)
  have u: "\<not> hasAdditionalStacksPlugin this \<or> Resources (service this) = None \<longrightarrow>
        fst (buckets this) = this"
    unfolding buckets_fst
    by (auto simp: collect_resources_def Let_def split: sum.splits prod.splits option.splits)
  have m: "(\<exists>r'. Resources (service (fst (buckets this))) = Some r'
              \<and> (\<forall>k. map_of r' k =
                         (case last_declared stacks k of
                            Some e \<Rightarrow> Some e
                          | None \<Rightarrow> map_of r k)))
           \<and> (\<forall>a. get (custom (service this)) ''additionalStacks'' = Obj a
                    \<and> distinct (map fst a) \<longrightarrow> stacks = map snd a)"
    if h: "hasAdditionalStacksPlugin this" and g: "getAdditionalStacks this = Inr stacks"
      and p: "\<forall>stack \<in> set stacks. ''__proto__'' \<notin> set (object_keys (get stack ''Resources''))"
      and r: "Resources (service this) = Some r"
      and c: "snd (collect_resources this) = Inr merged"
  proof -
    obtain r' err where ms: "merge_stacks stacks r = (r', err)"
      by (cases "merge_stacks stacks r")
    from h g r c ms have err: "err = None"
      by (cases err) (simp_all add: collect_resources_def Let_def)
    from h g r ms have res: "Resources (service (fst (buckets this))) = Some r'"
      unfolding buckets_fst
      by (simp add: collect_resources_def Let_def split: option.splits)
    from ms err have "merge_stacks stacks r = (r', None)" by simp
    with p have "map_of r' k =
        (case last_declared stacks k of Some e \<Rightarrow> Some e | None \<Rightarrow> map_of r k)" for k
      by (rule merge_stacks_lookup)
    with res have w: "\<exists>r'. Resources (service (fst (buckets this))) = Some r'
              \<and> (\<forall>k. map_of r' k =
                         (case last_declared stacks k of
                            Some e \<Rightarrow> Some e
                          | None \<Rightarrow> map_of r k))"
      by blast
    have "stacks = map snd a"
      if "get (custom (service this)) ''additionalStacks'' = Obj a" "distinct (map fst a)" for a
      using g that by (rule stacks_of_object)
    with w show ?thesis by blast
  qed
  from f u m show ?thesis by blast
qed

theorem buckets_frame_witness:
  "hasAdditionalStacksPlugin two_stacks
   \<and> Resources (service two_stacks) = Some [(''Data'', bucket_entry (Str ''primary''))]
   \<and> Resources (service (fst (buckets two_stacks)))
       = Some [(''Data'', bucket_entry (Str ''second''))]
   \<and> last_declared
        [first_stack, Obj [(''Resources'', Obj [(''Data'', bucket_entry (Str ''second''))])]]
        ''Data'' = Some (bucket_entry (Str ''second''))
   \<and> fst (buckets logs_extra) = logs_extra"
proof -
  let ?s2 = "Obj [(''Resources'', Obj [(''Data'', bucket_entry (Str ''second''))])]"
  let ?r = "[(''Data'', bucket_entry (Str ''primary''))]"
  let ?m = "[(''Data'', bucket_entry (Str ''second''))]"
  have h: "hasAdditionalStacksPlugin two_stacks" by code_simp
  have g: "getAdditionalStacks two_stacks = Inr [first_stack, ?s2]" by code_simp
  have p: "\<forall>stack \<in> set [first_stack, ?s2].
             ''__proto__'' \<notin> set (object_keys (get stack ''Resources''))"
    by code_simp
  have r: "Resources (service two_stacks) = Some ?r" by code_simp
  have c: "snd (collect_resources two_stacks) = Inr ?m" by code_simp
  have a: "Resources (service (fst (buckets two_stacks))) = Some ?m" by code_simp
  have d: "last_declared [first_stack, ?s2] ''Data'' = Some (bucket_entry (Str ''second''))"
    by code_simp
  have n: "\<not> hasAdditionalStacksPlugin logs_extra" by code_simp
  note t = buckets_frame [of two_stacks "[first_stack, ?s2]" ?r ?m,
             THEN conjunct2, THEN conjunct2, THEN conjunct2, THEN conjunct2]
  from h g p r c have "hasAdditionalStacksPlugin two_stacks
      \<and> getAdditionalStacks two_stacks = Inr [first_stack, ?s2]
      \<and> (\<forall>stack \<in> set [first_stack, ?s2].
             ''__proto__'' \<notin> set (object_keys (get stack ''Resources'')))
      \<and> Resources (service two_stacks) = Some ?r
      \<and> snd (collect_resources two_stacks) = Inr ?m"
    by (intro conjI)
  from mp [OF t this] obtain r'
    where r': "Resources (service (fst (buckets two_stacks))) = Some r'"
    and l: "\<forall>k. map_of r' k =
              (case last_declared [first_stack, ?s2] k of
                 Some e \<Rightarrow> Some e | None \<Rightarrow> map_of ?r k)"
    by (elim conjE exE)
  from l d have "map_of r' ''Data'' = Some (bucket_entry (Str ''second''))" by simp
  from buckets_frame [of logs_extra] n have u: "fst (buckets logs_extra) = logs_extra" by blast
  from h r a d u show ?thesis by simp
qed

end
